theory Spec2Isabelle
  imports Main "HOL-Library.Word"
begin

unbundle bit_operations_syntax

section \<open>Machine integers of glb\_align.hpp\<close>

text \<open>
  The header uses \<^verbatim>\<open>int\<close>, \<^verbatim>\<open>int32_t\<close> and \<^verbatim>\<open>int64_t\<close>.  They are modelled as
  two's-complement words: \<open>+\<close> and \<open>-\<close> wrap around, \<open>sint\<close> reads the signed value,
  \<open><s\<close> and \<open>\<le>s\<close> are the signed comparisons.  Signed overflow, the left shift of a
  negative value and the right shift of a negative value are undefined or
  implementation-defined in C++ before C++20; the model takes the two's-complement
  result (wrap-around, arithmetic right shift) that C++20 prescribes.
\<close>

type_synonym int32 = "32 word"
type_synonym int64 = "64 word"

section \<open>Score Accumulator: class CScore\<close>

text \<open>
  \<^verbatim>\<open>class CScore { ... int64_t m_score; }\<close>: the object is its only field, so the
  model identifies a \<open>CScore\<close> with the 64-bit word \<open>m_score\<close>.
\<close>

type_synonym CScore = int64

text \<open>\<^verbatim>\<open>CScore() : m_score(0) {}\<close>\<close>

definition CScore0 :: CScore where
  "CScore0 = 0"

text \<open>
  \<^verbatim>\<open>CScore(int32_t score, int32_t breaker) : m_score((int64_t(score) << 32) + breaker) {}\<close>
  Both conversions to \<^verbatim>\<open>int64_t\<close> are sign extensions (\<open>scast\<close>); there is no check
  of \<open>breaker\<close>.
\<close>

definition CScore :: "int32 \<Rightarrow> int32 \<Rightarrow> CScore" where
  "CScore score breaker = push_bit 32 (scast score :: int64) + scast breaker"

text \<open>\<^verbatim>\<open>bool operator>(const CScore& other) const { return m_score > other.m_score; }\<close>\<close>

definition op_gt :: "CScore \<Rightarrow> CScore \<Rightarrow> bool" where
  "op_gt a other = (other <s a)"

text \<open>\<^verbatim>\<open>bool operator>=(const CScore& other) const { return m_score >= other.m_score; }\<close>\<close>

definition op_ge :: "CScore \<Rightarrow> CScore \<Rightarrow> bool" where
  "op_ge a other = (other \<le>s a)"

text \<open>
  \<^verbatim>\<open>CScore operator+(const CScore& other) const { return CScore(m_score+other.m_score); }\<close>
  through the private constructor \<^verbatim>\<open>CScore(int64_t score) : m_score(score) {}\<close>.
  The operator has no failure branch.
\<close>

definition op_plus :: "CScore \<Rightarrow> CScore \<Rightarrow> CScore" where
  "op_plus a other = a + other"

text \<open>
  \<^verbatim>\<open>CScore& operator+=(const CScore& other) { m_score += other.m_score; return *this; }\<close>
  The model returns the updated object.
\<close>

definition op_plus_assign :: "CScore \<Rightarrow> CScore \<Rightarrow> CScore" where
  "op_plus_assign a other = a + other"

text \<open>
  \<^verbatim>\<open>int32_t Score() const { return (m_score >> 32); }\<close>: an arithmetic right shift of
  the 64-bit value, then the conversion to \<^verbatim>\<open>int32_t\<close>, which keeps the low 32 bits.
\<close>

definition Score :: "CScore \<Rightarrow> int32" where
  "Score a = ucast (signed_drop_bit 32 a)"

section \<open>CIGAR model: classes CCigarBase and CCigar\<close>

text \<open>\<^verbatim>\<open>typedef pair<int,int> TRange;\<close>\<close>

type_synonym TRange = "int32 \<times> int32"

text \<open>\<^verbatim>\<open>struct SElement { int m_len; char m_type; }\<close>, \<open>m_type\<close> one of 'M', 'D', 'I'.\<close>

record SElement =
  m_len :: int32
  m_type :: char

text \<open>
  \<^verbatim>\<open>list<SElement> m_elements; int m_qfrom, m_qto, m_sfrom, m_sto;\<close>
  \<open>CCigar\<close> derives from \<open>CCigarBase\<close> and adds no field, so one record serves both.
\<close>

record CCigarBase =
  m_elements :: "SElement list"
  m_qfrom :: int32
  m_qto :: int32
  m_sfrom :: int32
  m_sto :: int32

type_synonym CCigar = CCigarBase

text \<open>
  \<^verbatim>\<open>CCigarBase(int qto, int sto) : m_qfrom(qto+1), m_qto(qto), m_sfrom(sto+1), m_sto(sto) {}\<close>
  The element list is default-constructed, hence empty.
\<close>

definition CCigarBase :: "int32 \<Rightarrow> int32 \<Rightarrow> CCigarBase" where
  "CCigarBase qto sto =
     \<lparr>m_elements = [], m_qfrom = qto + 1, m_qto = qto, m_sfrom = sto + 1, m_sto = sto\<rparr>"

text \<open>\<^verbatim>\<open>CCigar(int qto = -1, int sto = -1) : CCigarBase(qto, sto) {}\<close>\<close>

definition CCigar :: "int32 \<Rightarrow> int32 \<Rightarrow> CCigar" where
  "CCigar qto sto = CCigarBase qto sto"

text \<open>\<^verbatim>\<open>TRange QueryRange() const { return TRange(m_qfrom, m_qto); }\<close>\<close>

definition QueryRange :: "CCigarBase \<Rightarrow> TRange" where
  "QueryRange c = (m_qfrom c, m_qto c)"

text \<open>\<^verbatim>\<open>TRange SubjectRange() const { return TRange(m_sfrom, m_sto); }\<close>\<close>

definition SubjectRange :: "CCigar \<Rightarrow> TRange" where
  "SubjectRange c = (m_sfrom c, m_sto c)"

section \<open>Edit distance: template function EditDistance\<close>

text \<open>
  The ways the C++ function can leave without a result: the \<^verbatim>\<open>vector<int>(n)\<close>
  constructor throws when the size, converted from a negative \<^verbatim>\<open>int\<close> to
  \<^verbatim>\<open>size_t\<close>, exceeds \<^verbatim>\<open>max_size()\<close>; an access past the end of a vector has
  no defined result.
\<close>

datatype cpp_failure = LengthError | OutOfRange

text \<open>\<^verbatim>\<open>const int len1 = s1.size()\<close>: the conversion of a \<^verbatim>\<open>size_t\<close> to \<^verbatim>\<open>int\<close>
  keeps the low 32 bits.\<close>

definition size_to_int :: "nat \<Rightarrow> int32" where
  "size_to_int n = word_of_nat n"

text \<open>\<^verbatim>\<open>std::min(a, b)\<close> on \<^verbatim>\<open>int\<close>: \<open>b\<close> if \<open>b < a\<close>, else \<open>a\<close>.\<close>

definition smin :: "int32 \<Rightarrow> int32 \<Rightarrow> int32" where
  "smin a b = (if b <s a then b else a)"

text \<open>
  \<^verbatim>\<open>for (int j = 0; j < len2; j++)
     col[j+1] = min( min( 1 + col[j], 1 + prevCol[1 + j]),
                     prevCol[j] + (s1[i]==s2[j] ? 0 : 1) );\<close>
  \<open>c\<close> is \<open>s1[i]\<close>.  The counter stays below \<open>len2\<close>, so it cannot wrap and is a
  \<open>nat\<close>; the entries are 32-bit and their additions wrap.
\<close>

function inner_loop ::
  "'a \<Rightarrow> 'a list \<Rightarrow> nat \<Rightarrow> int32 list \<Rightarrow> nat \<Rightarrow> int32 list \<Rightarrow> int32 list" where
  "inner_loop c s2 len2 prevCol j col =
     (if j < len2
      then inner_loop c s2 len2 prevCol (j + 1)
             (col[j + 1 := smin (smin (1 + col ! j) (1 + prevCol ! (1 + j)))
                                (prevCol ! j + (if c = s2 ! j then 0 else 1))])
      else col)"
  by pat_completeness auto
termination
  by (relation "measure (\<lambda>(c, s2, len2, prevCol, j, col). len2 - j)") auto

text \<open>
  \<^verbatim>\<open>for (int i = 0; i < len1; i++) { col[0] = i+1; <inner loop>; col.swap(prevCol); }\<close>
  The state is the pair \<open>(col, prevCol)\<close>; the swap exchanges its components.
\<close>

function outer_loop ::
  "'a list \<Rightarrow> 'a list \<Rightarrow> nat \<Rightarrow> nat \<Rightarrow> nat \<Rightarrow> int32 list \<times> int32 list
     \<Rightarrow> int32 list \<times> int32 list" where
  "outer_loop s1 s2 len1 len2 i (col, prevCol) =
     (if i < len1
      then outer_loop s1 s2 len1 len2 (i + 1)
             (prevCol, inner_loop (s1 ! i) s2 len2 prevCol 0 (col[0 := word_of_nat i + 1]))
      else (col, prevCol))"
  by pat_completeness auto
termination
  by (relation "measure (\<lambda>(s1, s2, len1, len2, i, cols). len1 - i)") auto

text \<open>
  \<^verbatim>\<open>const int len1 = s1.size(), len2 = s2.size();
  vector<int> col(len2+1), prevCol(len2+1);
  for (int i = 0; i < (int)prevCol.size(); i++) prevCol[i] = i;
  <outer loop>
  return prevCol[len2];\<close>
  A negative \<open>len2 + 1\<close> makes the vector constructor throw; \<open>len2 = -1\<close> gives empty
  vectors and the final read \<open>prevCol[-1]\<close> is out of range.  Otherwise both vectors have
  \<open>len2 + 1\<close> entries (value-initialised to 0), every access of the loops is in range,
  and a negative \<open>len1\<close> runs the outer loop zero times.
\<close>

definition EditDistance :: "'a list \<Rightarrow> 'a list \<Rightarrow> cpp_failure + int32" where
  "EditDistance s1 s2 =
     (let len1 = size_to_int (length s1); len2 = size_to_int (length s2)
      in if sint (len2 + 1) < 0 then Inl LengthError
         else if sint len2 < 0 then Inl OutOfRange
         else let n = nat (sint (len2 + 1));
                  col = replicate n 0;
                  prevCol = map word_of_nat [0..<n];
                  (col', prevCol') =
                     outer_loop s1 s2 (nat (sint len1)) (nat (sint len2)) 0 (col, prevCol)
              in Inr (prevCol' ! nat (sint len2)))"

subsection \<open>The reference recursion of the Levenshtein distance\<close>

text \<open>
  The unit-cost recursion on the last symbols, written on the reversed sequences so that
  the last symbol is the head: distance(empty, s) = |s|, distance(s, empty) = |s|,
  otherwise the minimum of insertion + 1, deletion + 1 and the distance of the two
  sequences without their last symbols plus 0 if these are equal, else 1.
\<close>

fun lev_rev :: "'a list \<Rightarrow> 'a list \<Rightarrow> nat" where
  "lev_rev [] ys = length ys"
| "lev_rev xs [] = length xs"
| "lev_rev (x # xs) (y # ys) =
     min (min (lev_rev (x # xs) ys + 1) (lev_rev xs (y # ys) + 1))
         (lev_rev xs ys + (if x = y then 0 else 1))"

definition Levenshtein :: "'a list \<Rightarrow> 'a list \<Rightarrow> nat" where
  "Levenshtein s1 s2 = lev_rev (rev s1) (rev s2)"

text \<open>The distance of two prefixes, and the row of the table that the loops hold
  after \<open>i\<close> rounds.\<close>

definition lev_prefix :: "'a list \<Rightarrow> 'a list \<Rightarrow> nat \<Rightarrow> nat \<Rightarrow> nat" where
  "lev_prefix s1 s2 i j = lev_rev (rev (take i s1)) (rev (take j s2))"

definition lev_row :: "'a list \<Rightarrow> 'a list \<Rightarrow> nat \<Rightarrow> int32 list" where
  "lev_row s1 s2 i = map (\<lambda>j. word_of_nat (lev_prefix s1 s2 i j)) [0..<Suc (length s2)]"

section \<open>Alignment engine: GlbAlign, LclAlign, VariBandAlign, BandAlign\<close>

text \<open>
  glb\_align.hpp only declares the four alignment entry points and
  \<^verbatim>\<open>CCigarBase::PushFront\<close>; their bodies are not part of the header.  The
  definitions of this section are therefore modelled from the specification, each one
  marked as such.
\<close>

text \<open>Modelled from the spec: the error taxonomy of its section 7, which the header
  does not declare.\<close>

datatype align_error =
  InvalidInput | InvalidSymbol | BandOutOfRange | InconsistentSplice | ScoreOverflow

text \<open>
  \<^verbatim>\<open>const char* query\<close>: a borrowed byte buffer, read by offset.
  \<^verbatim>\<open>const char delta[256][256]\<close>: the substitution table, indexed by two byte values,
  with \<^verbatim>\<open>char\<close> (8-bit signed) entries.
\<close>

type_synonym seq = "nat \<Rightarrow> char"
type_synonym TDelta = "char \<Rightarrow> char \<Rightarrow> 8 word"

text \<open>Modelled from the spec: the body of \<^verbatim>\<open>void PushFront(const SElement& el)\<close> is
  missing.  Section 4.3: ``insert a run, merging with the adjacent same-kind run if
  present; updates the relevant coordinate bound by \<open>op.length\<close>''.  A run pushed at the
  front moves \<open>query_from\<close> down when it consumes query ('M', 'I') and \<open>subject_from\<close>
  down when it consumes subject ('M', 'D').
\<close>

definition PushFront :: "SElement \<Rightarrow> CCigarBase \<Rightarrow> CCigarBase" where
  "PushFront el c =
     c\<lparr>m_elements :=
         (case m_elements c of
            [] \<Rightarrow> [el]
          | e # es \<Rightarrow> if m_type e = m_type el
                      then e\<lparr>m_len := m_len el + m_len e\<rparr> # es
                      else el # e # es),
       m_qfrom := (if m_type el \<in> {CHR ''M'', CHR ''I''}
                   then m_qfrom c - m_len el else m_qfrom c),
       m_sfrom := (if m_type el \<in> {CHR ''M'', CHR ''D''}
                   then m_sfrom c - m_len el else m_sfrom c)\<rparr>"

text \<open>Modelled from the spec: the three states of a cell of the shared recurrence
  (section 4.4): \<open>Match\<close> ends in an aligned pair, \<open>GapQ\<close> in a column that
  consumes subject only (kind 'D'), \<open>GapS\<close> in a column that consumes query only
  (kind 'I').
\<close>

datatype dp_state = Match | GapQ | GapS

text \<open>Modelled from the spec: ``All cell values are Score Accumulators'', and ``boundary cells
  use a very large negative sentinel for disallowed predecessors so they never win a
  max''.  A cell value is a \<open>CScore\<close>, or \<open>None\<close> for the sentinel; the comparison
  is \<open>CScore::operator>=\<close> and the sentinel loses against every score.
\<close>

definition acc_ge :: "CScore option \<Rightarrow> CScore option \<Rightarrow> bool" where
  "acc_ge x y = (case y of None \<Rightarrow> True
                 | Some b \<Rightarrow> (case x of None \<Rightarrow> False | Some a \<Rightarrow> op_ge a b))"

text \<open>Modelled from the spec: the \<open>max\<close> of the recurrence; on equal values the first
  argument wins.\<close>

definition acc_max :: "CScore option \<Rightarrow> CScore option \<Rightarrow> CScore option" where
  "acc_max x y = (if acc_ge x y then x else y)"

text \<open>Modelled from the spec: adding a term of the recurrence to a cell value with
  \<open>CScore::operator+\<close>; the sentinel stays the sentinel.\<close>

definition acc_add :: "CScore option \<Rightarrow> CScore \<Rightarrow> CScore option" where
  "acc_add x c = map_option (\<lambda>a. op_plus a c) x"

text \<open>Modelled from the spec: \<open>score(a, b)\<close> of section 4.1, the table entry widened
  to \<^verbatim>\<open>int\<close>, as a Score Accumulator with tie-breaker 0.\<close>

definition subst_score :: "TDelta \<Rightarrow> char \<Rightarrow> char \<Rightarrow> CScore" where
  "subst_score delta a b = CScore (scast (delta a b)) 0"

text \<open>Modelled from the spec: the DP fill of \<open>GlbAlign\<close> is missing.  Section 4.4:
  \<^verbatim>\<open>Match[i][j] = score(q[i-1], s[j-1]) + max(Match[i-1][j-1], GapQ[i-1][j-1], GapS[i-1][j-1])
  GapQ[i][j]  = max(Match[i][j-1] - open, GapQ[i][j-1] - extend)
  GapS[i][j]  = max(Match[i-1][j] - open, GapS[i-1][j] - extend)\<close>
  with \<open>Match[0][0]\<close> the empty alignment of score 0 and every predecessor outside the
  matrix the sentinel.  Row 0 and column 0 then hold the cumulative gap costs of the
  global policy (``both ends forced'').
\<close>

fun cell ::
  "seq \<Rightarrow> seq \<Rightarrow> int32 \<Rightarrow> int32 \<Rightarrow> TDelta \<Rightarrow> nat \<Rightarrow> nat \<Rightarrow> dp_state \<Rightarrow> CScore option" where
  "cell q s gopen gext delta 0 0 Match = Some (CScore 0 0)"
| "cell q s gopen gext delta (Suc i) (Suc j) Match =
     acc_add (acc_max (acc_max (cell q s gopen gext delta i j Match)
                               (cell q s gopen gext delta i j GapQ))
                      (cell q s gopen gext delta i j GapS))
             (subst_score delta (q i) (s j))"
| "cell q s gopen gext delta i (Suc j) GapQ =
     acc_max (acc_add (cell q s gopen gext delta i j Match) (CScore (- gopen) 0))
             (acc_add (cell q s gopen gext delta i j GapQ) (CScore (- gext) 0))"
| "cell q s gopen gext delta (Suc i) j GapS =
     acc_max (acc_add (cell q s gopen gext delta i j Match) (CScore (- gopen) 0))
             (acc_add (cell q s gopen gext delta i j GapS) (CScore (- gext) 0))"
| "cell q s gopen gext delta _ _ _ = None"

text \<open>Modelled from the spec: the state that holds the best value of a cell, in the fixed
  preference order \<open>Match\<close>, \<open>GapQ\<close>, \<open>GapS\<close> that section 9 proposes for ties.
\<close>

definition winner :: "seq \<Rightarrow> seq \<Rightarrow> int32 \<Rightarrow> int32 \<Rightarrow> TDelta \<Rightarrow> nat \<Rightarrow> nat \<Rightarrow> dp_state" where
  "winner q s gopen gext delta i j =
     (let m = cell q s gopen gext delta i j Match;
          gq = cell q s gopen gext delta i j GapQ;
          gs = cell q s gopen gext delta i j GapS
      in if acc_ge m gq \<and> acc_ge m gs then Match
         else if acc_ge gq gs then GapQ else GapS)"

text \<open>Modelled from the spec: the predecessor state of a gap state \<open>g\<close>, read at the
  predecessor cell \<open>(i, j)\<close>: the gap was opened from \<open>Match\<close> or extended from \<open>g\<close>,
  whichever term of the recurrence won.
\<close>

definition gap_origin ::
  "seq \<Rightarrow> seq \<Rightarrow> int32 \<Rightarrow> int32 \<Rightarrow> TDelta \<Rightarrow> nat \<Rightarrow> nat \<Rightarrow> dp_state \<Rightarrow> dp_state" where
  "gap_origin q s gopen gext delta i j g =
     (if acc_ge (acc_add (cell q s gopen gext delta i j Match) (CScore (- gopen) 0))
                (acc_add (cell q s gopen gext delta i j g) (CScore (- gext) 0))
      then Match else g)"

text \<open>Modelled from the spec: the traceback of \<open>GlbAlign\<close> is missing.  Section 4.4: from
  the chosen cell back to the origin, ``following the state that produced the winning
  value at each step, emitting one CIGAR operation per run of same-state steps'', in
  forward order.  Each step is pushed at the front of the descriptor as a run of
  length 1; \<open>PushFront\<close> merges it into the run it continues.  The walk ends at the
  origin; the last equation also covers a state whose value is the sentinel.
\<close>

fun traceback ::
  "seq \<Rightarrow> seq \<Rightarrow> int32 \<Rightarrow> int32 \<Rightarrow> TDelta \<Rightarrow> nat \<Rightarrow> nat \<Rightarrow> dp_state \<Rightarrow> CCigar \<Rightarrow> CCigar" where
  "traceback q s gopen gext delta (Suc i) (Suc j) Match c =
     traceback q s gopen gext delta i j (winner q s gopen gext delta i j)
       (PushFront \<lparr>m_len = 1, m_type = CHR ''M''\<rparr> c)"
| "traceback q s gopen gext delta i (Suc j) GapQ c =
     traceback q s gopen gext delta i j (gap_origin q s gopen gext delta i j GapQ)
       (PushFront \<lparr>m_len = 1, m_type = CHR ''D''\<rparr> c)"
| "traceback q s gopen gext delta (Suc i) j GapS c =
     traceback q s gopen gext delta i j (gap_origin q s gopen gext delta i j GapS)
       (PushFront \<lparr>m_len = 1, m_type = CHR ''I''\<rparr> c)"
| "traceback q s gopen gext delta _ _ _ c = c"

text \<open>Modelled from the spec: the body of
  \<^verbatim>\<open>CCigar GlbAlign(const char* query, int querylen, const char* subject, int subjectlen,
                  int gopen, int gapextend, const char delta[256][256])\<close>
  is missing.  Section 4.4: ``\<open>querylen <= 0\<close> or \<open>subjectlen <= 0\<close> fails with
  \<open>InvalidInput\<close> (no alignment is attempted)''; otherwise the optimum is read from cell
  \<open>(querylen, subjectlen)\<close> only and traced back into a descriptor that starts as the
  empty span ending at the last position of both sequences.
\<close>

definition GlbAlign ::
  "seq \<Rightarrow> int32 \<Rightarrow> seq \<Rightarrow> int32 \<Rightarrow> int32 \<Rightarrow> int32 \<Rightarrow> TDelta \<Rightarrow> align_error + CCigar" where
  "GlbAlign query querylen subject subjectlen gopen gapextend delta =
     (if querylen \<le>s 0 \<or> subjectlen \<le>s 0 then Inl InvalidInput
      else let n = nat (sint querylen); m = nat (sint subjectlen)
           in Inr (traceback query subject gopen gapextend delta n m
                     (winner query subject gopen gapextend delta n m)
                     (CCigar (querylen - 1) (subjectlen - 1))))"

text \<open>Modelled from the spec: the body of the seven-argument \<^verbatim>\<open>LclAlign\<close> is missing.
  Section 4.4 gives the failure on a non-positive length before any alignment is
  attempted.  The dynamic programming of the local policy behind that check, on which
  no statement of this theory depends, is the parameter \<open>dp\<close>.
\<close>

definition LclAlign ::
  "(seq \<Rightarrow> int32 \<Rightarrow> seq \<Rightarrow> int32 \<Rightarrow> int32 \<Rightarrow> int32 \<Rightarrow> TDelta \<Rightarrow> align_error + CCigar)
   \<Rightarrow> seq \<Rightarrow> int32 \<Rightarrow> seq \<Rightarrow> int32 \<Rightarrow> int32 \<Rightarrow> int32 \<Rightarrow> TDelta \<Rightarrow> align_error + CCigar" where
  "LclAlign dp query querylen subject subjectlen gopen gapextend delta =
     (if querylen \<le>s 0 \<or> subjectlen \<le>s 0 then Inl InvalidInput
      else dp query querylen subject subjectlen gopen gapextend delta)"

text \<open>Modelled from the spec: the body of the \<^verbatim>\<open>LclAlign\<close> overload with \<^verbatim>\<open>pinleft\<close> and
  \<^verbatim>\<open>pinright\<close> is missing; the same check, and the pinned local policy as the
  parameter \<open>dp\<close>.
\<close>

definition LclAlign_pin ::
  "(seq \<Rightarrow> int32 \<Rightarrow> seq \<Rightarrow> int32 \<Rightarrow> int32 \<Rightarrow> int32 \<Rightarrow> bool \<Rightarrow> bool \<Rightarrow> TDelta
      \<Rightarrow> align_error + CCigar)
   \<Rightarrow> seq \<Rightarrow> int32 \<Rightarrow> seq \<Rightarrow> int32 \<Rightarrow> int32 \<Rightarrow> int32 \<Rightarrow> bool \<Rightarrow> bool \<Rightarrow> TDelta
   \<Rightarrow> align_error + CCigar" where
  "LclAlign_pin dp query querylen subject subjectlen gopen gapextend pinleft pinright delta =
     (if querylen \<le>s 0 \<or> subjectlen \<le>s 0 then Inl InvalidInput
      else dp query querylen subject subjectlen gopen gapextend pinleft pinright delta)"

text \<open>Modelled from the spec: the body of \<^verbatim>\<open>VariBandAlign\<close> is missing.  Section 4.4: the
  check of the lengths, then ``a supplied interval wholly outside \<open>[0, subjectlen]\<close>
  fails with \<open>BandOutOfRange\<close>''; \<^verbatim>\<open>subject_limits\<close> holds one interval per query
  position.  The banded dynamic programming is the parameter \<open>dp\<close>.
\<close>

definition VariBandAlign ::
  "(seq \<Rightarrow> int32 \<Rightarrow> seq \<Rightarrow> int32 \<Rightarrow> int32 \<Rightarrow> int32 \<Rightarrow> TDelta \<Rightarrow> (nat \<Rightarrow> TRange)
      \<Rightarrow> align_error + CCigar)
   \<Rightarrow> seq \<Rightarrow> int32 \<Rightarrow> seq \<Rightarrow> int32 \<Rightarrow> int32 \<Rightarrow> int32 \<Rightarrow> TDelta \<Rightarrow> (nat \<Rightarrow> TRange)
   \<Rightarrow> align_error + CCigar" where
  "VariBandAlign dp query querylen subject subjectlen gopen gapextend delta subject_limits =
     (if querylen \<le>s 0 \<or> subjectlen \<le>s 0 then Inl InvalidInput
      else if list_ex (\<lambda>i. snd (subject_limits i) <s 0 \<or> subjectlen <s fst (subject_limits i))
                [0..<nat (sint querylen)]
      then Inl BandOutOfRange
      else dp query querylen subject subjectlen gopen gapextend delta subject_limits)"

text \<open>Modelled from the spec: the body of \<^verbatim>\<open>BandAlign\<close> is missing; the check of the
  lengths, and the fixed-band dynamic programming as the parameter \<open>dp\<close> (a wide band
  is ``not an error'').
\<close>

definition BandAlign ::
  "(seq \<Rightarrow> int32 \<Rightarrow> seq \<Rightarrow> int32 \<Rightarrow> int32 \<Rightarrow> int32 \<Rightarrow> TDelta \<Rightarrow> int32 \<Rightarrow> align_error + CCigar)
   \<Rightarrow> seq \<Rightarrow> int32 \<Rightarrow> seq \<Rightarrow> int32 \<Rightarrow> int32 \<Rightarrow> int32 \<Rightarrow> TDelta \<Rightarrow> int32
   \<Rightarrow> align_error + CCigar" where
  "BandAlign dp query querylen subject subjectlen gopen gapextend delta band =
     (if querylen \<le>s 0 \<or> subjectlen \<le>s 0 then Inl InvalidInput
      else dp query querylen subject subjectlen gopen gapextend delta band)"

text \<open>The sum of the run lengths of the operations of a descriptor whose kind is in
  \<open>K\<close>, and the descriptors all of whose runs have a positive length.\<close>

definition run_sum :: "char set \<Rightarrow> CCigarBase \<Rightarrow> int" where
  "run_sum K c =
     sum_list (map (\<lambda>e. sint (m_len e)) (filter (\<lambda>e. m_type e \<in> K) (m_elements c)))"

definition runs_positive :: "CCigarBase \<Rightarrow> bool" where
  "runs_positive c = list_all (\<lambda>e. 0 < sint (m_len e)) (m_elements c)"

section \<open>Facts about the machine integers\<close>

lemma sint_inject: "sint (a :: 'a::len word) = sint b \<Longrightarrow> a = b"
proof -
  assume "sint a = sint b"
  then have "(word_of_int (sint a) :: 'a word) = word_of_int (sint b)" by simp
  then show "a = b" by simp
qed

lemma sint32_range: "- 2147483648 \<le> sint (w :: int32) \<and> sint w < 2147483648"
  using sint_ge [of w] sint_lt [of w] by simp

lemma sint_word_of_int32:
  "- 2147483648 \<le> k \<Longrightarrow> k < 2147483648 \<Longrightarrow> sint (word_of_int k :: int32) = k"
  by (simp add: sint_sbintrunc' signed_take_bit_int_eq_self)

lemma sint_word_of_int64:
  "- 9223372036854775808 \<le> k \<Longrightarrow> k < 9223372036854775808
   \<Longrightarrow> sint (word_of_int k :: int64) = k"
  by (simp add: sint_sbintrunc' signed_take_bit_int_eq_self)

lemma sint_add1: "sint (w :: int32) < 2147483647 \<Longrightarrow> sint (w + 1) = sint w + 1"
  using sint32_range [of w] by (simp add: sint_word_ariths signed_take_bit_int_eq_self)

lemma sint_of_nat32: "n < 2147483648 \<Longrightarrow> sint (word_of_nat n :: int32) = int n"
proof -
  assume "n < 2147483648"
  then have "sint (word_of_int (int n) :: int32) = int n"
    by (intro sint_word_of_int32) simp_all
  then show ?thesis by simp
qed

section \<open>The packed value of a Score Accumulator\<close>

text \<open>The constructor packs the exact value \<open>score * 2^32 + breaker\<close>, reduced to 64
  bits.\<close>

lemma CScore_word_of_int: "CScore s t = word_of_int (sint s * 4294967296 + sint t)"
proof -
  have "(word_of_int (sint s * 4294967296 + sint t) :: int64)
        = word_of_int (sint s) * 4294967296 + word_of_int (sint t)"
    by simp
  also have "\<dots> = CScore s t"
    unfolding CScore_def by (simp add: push_bit_eq_mult)
  finally show ?thesis by simp
qed

text \<open>With a non-negative tie-breaker the packed value fits: nothing wraps.\<close>

lemma sint_CScore:
  assumes "0 \<le> sint t"
  shows "sint (CScore s t) = sint s * 4294967296 + sint t"
proof -
  have "- 9223372036854775808 \<le> sint s * 4294967296 + sint t"
    and "sint s * 4294967296 + sint t < 9223372036854775808"
    using sint32_range [of s] sint32_range [of t] assms by linarith+
  then show ?thesis
    unfolding CScore_word_of_int by (rule sint_word_of_int64)
qed

text \<open>\<open>Score\<close> reads bits 32 to 63.\<close>

lemma Score_word_of_int: "Score (word_of_int v) = word_of_int (v div 4294967296)"
proof -
  have "Score (word_of_int v) = word_of_int (drop_bit 32 v)"
    unfolding Score_def
    by (rule bit_word_eqI) (auto simp add: bit_simps)
  then show ?thesis
    by (simp add: drop_bit_eq_div)
qed

lemma Score_uint: "Score a = word_of_int (uint a div 4294967296)"
  using Score_word_of_int [of "uint a"] by simp

text \<open>Extraction after packing: a negative tie-breaker borrows one from the score.\<close>

lemma Score_CScore: "Score (CScore s t) = (if 0 \<le> sint t then s else s - 1)"
proof -
  have d: "(sint s * 4294967296 + sint t) div 4294967296 = sint s + sint t div 4294967296"
    by simp
  have "sint t div 4294967296 = (if 0 \<le> sint t then 0 else - 1)"
    using sint32_range [of t] by (auto simp: div_pos_pos_trivial div_eq_minus1 zdiv_eq_0_iff)
  then have "Score (CScore s t) = word_of_int (sint s + (if 0 \<le> sint t then 0 else - 1))"
    unfolding CScore_word_of_int Score_word_of_int d by simp
  then show ?thesis by simp
qed

text \<open>The order of two packed values with non-negative tie-breakers.\<close>

lemma op_gt_CScore:
  assumes t: "0 \<le> sint t1" "0 \<le> sint t2"
  shows "op_gt (CScore s1 t1) (CScore s2 t2) \<longleftrightarrow> (s2 <s s1 \<or> s1 = s2 \<and> t2 <s t1)"
proof -
  have eq: "s1 = s2 \<longleftrightarrow> sint s1 = sint s2"
    using sint_inject by auto
  show ?thesis
    unfolding op_gt_def word_sless_alt eq
    using sint32_range [of t1] sint32_range [of t2] t
    by (simp only: sint_CScore)
       (cases "sint s2 < sint s1"; cases "sint s1 = sint s2"; simp; linarith?)
qed

text \<open>The sum of two accumulators: the carry out of the low 32 bits reaches the score.\<close>

lemma Score_op_plus:
  "Score (op_plus a b) = Score a + Score b +
     (if 4294967296 \<le> uint a mod 4294967296 + uint b mod 4294967296 then 1 else 0)"
proof -
  let ?K = "4294967296 :: int"
  have "op_plus a b = word_of_int (uint a + uint b)"
    unfolding op_plus_def by simp
  then have "Score (op_plus a b) = word_of_int ((uint a + uint b) div ?K)"
    by (simp only: Score_word_of_int)
  also have "(uint a + uint b) div ?K
      = uint a div ?K + uint b div ?K + (uint a mod ?K + uint b mod ?K) div ?K"
    by (rule div_add1_eq)
  also have "(uint a mod ?K + uint b mod ?K) div ?K
      = (if ?K \<le> uint a mod ?K + uint b mod ?K then 1 else 0)"
  proof -
    have "0 \<le> uint a mod ?K" "uint a mod ?K < ?K" "0 \<le> uint b mod ?K" "uint b mod ?K < ?K"
      by simp_all
    then show ?thesis
      by (auto simp: div_pos_pos_trivial
          intro!: int_div_pos_eq [where r = "uint a mod ?K + uint b mod ?K - ?K"])
  qed
  finally show ?thesis
    by (simp add: Score_uint)
qed

section \<open>Score Accumulator: the claims\<close>

text \<open>
  C1.  For all 32-bit signed scores \<open>s1\<close>, \<open>s2\<close> and all tie-breakers \<open>t1\<close>, \<open>t2\<close> with
  \<open>0 \<le> t1, t2 < 2^31\<close>, the order of the accumulators is lexicographic with the primary
  score first: \<open>CScore(s1, t1) > CScore(s2, t2)\<close> holds if and only if \<open>s1 > s2\<close>, or
  \<open>s1 = s2\<close> and \<open>t1 > t2\<close>; negative scores included.  (The upper bound of the
  tie-breakers is that of their type.)
\<close>

theorem CScore_order_lexicographic:
  assumes "0 \<le> sint t1" and "0 \<le> sint t2"
  shows "op_gt (CScore s1 t1) (CScore s2 t2) \<longleftrightarrow> (s2 <s s1 \<or> s1 = s2 \<and> t2 <s t1)"
  using assms by (rule op_gt_CScore)

theorem CScore_order_lexicographic_witness:
  "0 \<le> sint (0 :: int32) \<and> 0 \<le> sint (5 :: int32) \<and>
   op_gt (CScore (- 1) 0) (CScore (- 2) 5) \<and> \<not> op_gt (CScore (- 2) 5) (CScore (- 2) 5)"
proof -
  have h0: "0 \<le> sint (0 :: int32)" and h5: "0 \<le> sint (5 :: int32)" by simp_all
  show ?thesis
    using CScore_order_lexicographic [OF h0 h5, of "- 1" "- 2"]
      CScore_order_lexicographic [OF h5 h5, of "- 2" "- 2"]
    by (simp add: word_sless_alt)
qed

text \<open>
  C3, as the code has it.  The accumulation operators never fail and check no range:
  \<open>+\<close> and \<open>+=\<close> both yield the sum of the two packed 64-bit values, wrapped to 64 bits.
  A tie-breaker sum that reaches \<open>2^32\<close> is carried into the primary score: the score of
  the sum is the sum of the scores plus 1 (modulo \<open>2^32\<close>) exactly when the low 32-bit
  fields of the operands add up to \<open>2^32\<close> or more.
\<close>

theorem op_plus_unchecked:
  "op_plus_assign a b = op_plus a b \<and>
   uint (op_plus a b) = (uint a + uint b) mod 18446744073709551616 \<and>
   Score (op_plus a b) = Score a + Score b +
     (if 4294967296 \<le> uint a mod 4294967296 + uint b mod 4294967296 then 1 else 0)"
proof -
  have "uint (op_plus a b) = (uint a + uint b) mod 18446744073709551616"
    unfolding op_plus_def by (simp add: uint_word_ariths)
  then show ?thesis
    by (simp add: Score_op_plus) (simp add: op_plus_def op_plus_assign_def)
qed

theorem op_plus_unchecked_witness:
  "Score (op_plus 4294967294 (CScore 0 2)) = 1 \<and>
   Score (op_plus (CScore 3 5) (CScore 4 6)) = 7"
proof -
  have u: "uint (4294967294 :: int64) = 4294967294" "uint (CScore 0 2) = 2"
    "uint (CScore 3 5) = 12884901893" "uint (CScore 4 6) = 17179869190"
    by (simp_all add: CScore_def)
  have s: "Score 4294967294 = 0" "Score (CScore 0 2) = 0"
    "Score (CScore 3 5) = 3" "Score (CScore 4 6) = 4"
    by (simp_all add: Score_def CScore_def)
  show ?thesis
    using op_plus_unchecked [of 4294967294 "CScore 0 2"]
      op_plus_unchecked [of "CScore 3 5" "CScore 4 6"]
    by (simp add: u s)
qed

text \<open>
  C3, as stated, fails: three accumulators of primary score 0, built with in-range
  tie-breakers, add up without any failure to the accumulator of primary score 1 and
  tie-breaker 0.  The overflow of the tie-breaker is carried into the score.
\<close>

theorem op_plus_carry_counterexample:
  "Score (CScore 0 2147483647) = 0 \<and> Score (CScore 0 2) = 0 \<and>
   op_plus (op_plus (CScore 0 2147483647) (CScore 0 2147483647)) (CScore 0 2) = CScore 1 0 \<and>
   op_plus_assign (op_plus_assign (CScore 0 2147483647) (CScore 0 2147483647)) (CScore 0 2)
     = CScore 1 0 \<and>
   Score (CScore 1 0) = 1"
  by (simp add: Score_def CScore_def op_plus_def op_plus_assign_def)

text \<open>
  C6.  For all scores \<open>s1\<close>, \<open>s2\<close> and tie-breakers \<open>t1, t2 \<ge> 0\<close> such that \<open>s1 + s2\<close>
  fits in a signed 32-bit integer and \<open>t1 + t2 < 2^31\<close>,
  \<open>CScore(s1, t1) + CScore(s2, t2)\<close> equals \<open>CScore(s1 + s2, t1 + t2)\<close>.
\<close>

theorem op_plus_componentwise:
  assumes s: "- 2147483648 \<le> sint s1 + sint s2" "sint s1 + sint s2 < 2147483648"
    and t: "0 \<le> sint t1" "0 \<le> sint t2" "sint t1 + sint t2 < 2147483648"
  shows "op_plus (CScore s1 t1) (CScore s2 t2) = CScore (s1 + s2) (t1 + t2)"
proof -
  have ss: "sint (s1 + s2) = sint s1 + sint s2"
    using s by (simp add: sint_word_ariths signed_take_bit_int_eq_self)
  have tt: "sint (t1 + t2) = sint t1 + sint t2"
    using t by (simp add: sint_word_ariths signed_take_bit_int_eq_self)
  have "op_plus (CScore s1 t1) (CScore s2 t2)
        = word_of_int ((sint s1 * 4294967296 + sint t1) + (sint s2 * 4294967296 + sint t2))"
    unfolding op_plus_def CScore_word_of_int by simp
  also have "(sint s1 * 4294967296 + sint t1) + (sint s2 * 4294967296 + sint t2)
        = sint (s1 + s2) * 4294967296 + sint (t1 + t2)"
    unfolding ss tt by (simp add: algebra_simps)
  finally show ?thesis
    unfolding CScore_word_of_int .
qed

theorem op_plus_componentwise_witness:
  "- 2147483648 \<le> sint (- 7 :: int32) + sint (3 :: int32) \<and>
   sint (- 7 :: int32) + sint (3 :: int32) < 2147483648 \<and>
   0 \<le> sint (10 :: int32) \<and> 0 \<le> sint (20 :: int32) \<and>
   sint (10 :: int32) + sint (20 :: int32) < 2147483648 \<and>
   op_plus (CScore (- 7) 10) (CScore 3 20) = CScore (- 4) 30"
proof -
  have h: "- 2147483648 \<le> sint (- 7 :: int32) + sint (3 :: int32)"
    "sint (- 7 :: int32) + sint (3 :: int32) < 2147483648"
    "0 \<le> sint (10 :: int32)" "0 \<le> sint (20 :: int32)"
    "sint (10 :: int32) + sint (20 :: int32) < 2147483648"
    by simp_all
  show ?thesis
    using h op_plus_componentwise [OF h] by simp
qed

text \<open>
  C7.  For every 32-bit signed score \<open>s\<close>, negative ones included, and every tie-breaker
  \<open>t\<close> with \<open>0 \<le> t < 2^31\<close>, \<open>CScore(s, t).Score()\<close> returns exactly \<open>s\<close>.
\<close>

theorem Score_CScore_roundtrip:
  assumes "0 \<le> sint t"
  shows "Score (CScore s t) = s"
  using assms by (simp add: Score_CScore)

theorem Score_CScore_roundtrip_witness:
  "0 \<le> sint (2147483647 :: int32) \<and> Score (CScore (- 2147483648) 2147483647) = - 2147483648"
proof -
  have h: "0 \<le> sint (2147483647 :: int32)" by simp
  show ?thesis
    using h Score_CScore_roundtrip [OF h, of "- 2147483648"] by simp
qed

text \<open>
  C8.  The constructor checks nothing: for every pair it returns the packed value
  \<open>score * 2^32 + breaker\<close> (wrapped to 64 bits), a negative tie-breaker included.  The
  precondition \<open>tiebreaker \<ge> 0\<close> is necessary: under it the extraction returns the
  primary score, and the comparison of two accumulators with different primary scores
  is the comparison of these scores; with a negative tie-breaker the extraction returns
  \<open>score - 1\<close>, hence a different score, and there are a strictly larger primary score
  and a negative tie-breaker for which the comparison answers ``not greater''.
\<close>

theorem CScore_breaker_precondition:
  "(\<forall>s t. CScore s t = word_of_int (sint s * 4294967296 + sint t)) \<and>
   (\<forall>s t. 0 \<le> sint t \<longrightarrow> Score (CScore s t) = s) \<and>
   (\<forall>s1 t1 s2 t2. 0 \<le> sint t1 \<longrightarrow> 0 \<le> sint t2 \<longrightarrow> s1 \<noteq> s2 \<longrightarrow>
      op_gt (CScore s1 t1) (CScore s2 t2) = (s2 <s s1)) \<and>
   (\<forall>s t. sint t < 0 \<longrightarrow> Score (CScore s t) = s - 1 \<and> Score (CScore s t) \<noteq> s) \<and>
   (\<exists>s1 t1 s2 t2. sint t2 < 0 \<and> s2 <s s1 \<and> \<not> op_gt (CScore s1 t1) (CScore s2 t2))"
proof -
  have pk: "\<forall>s t. CScore s t = word_of_int (sint s * 4294967296 + sint t)"
    by (intro allI CScore_word_of_int)
  have ex: "\<forall>s t. 0 \<le> sint t \<longrightarrow> Score (CScore s t) = s"
    by (simp add: Score_CScore)
  have ord: "\<forall>s1 t1 s2 t2. 0 \<le> sint t1 \<longrightarrow> 0 \<le> sint t2 \<longrightarrow> s1 \<noteq> s2 \<longrightarrow>
      op_gt (CScore s1 t1) (CScore s2 t2) = (s2 <s s1)"
    by (simp add: op_gt_CScore)
  have neg: "\<forall>s t. sint t < 0 \<longrightarrow> Score (CScore s t) = s - 1 \<and> Score (CScore s t) \<noteq> s"
    by (simp add: Score_CScore)
  have "sint (- 1 :: int32) < 0 \<and> (- 2147483648 :: int32) <s 0 \<and>
        \<not> op_gt (CScore 0 0) (CScore (- 2147483648) (- 1))"
    by (simp add: CScore_def op_gt_def word_sless_alt)
  then have cmp: "\<exists>s1 t1 s2 t2. sint t2 < 0 \<and> s2 <s s1 \<and> \<not> op_gt (CScore s1 t1) (CScore s2 t2)"
    by blast
  show ?thesis
    by (intro conjI pk ex ord neg cmp)
qed

theorem CScore_breaker_precondition_witness:
  "0 \<le> sint (3 :: int32) \<and> 0 \<le> sint (0 :: int32) \<and> (7 :: int32) \<noteq> - 5 \<and>
   Score (CScore (- 5) 3) = - 5 \<and> op_gt (CScore 7 0) (CScore (- 5) 3) \<and>
   sint (- 1 :: int32) < 0 \<and> Score (CScore 0 (- 1)) = - 1"
proof -
  have h: "0 \<le> sint (3 :: int32)" "0 \<le> sint (0 :: int32)" "(7 :: int32) \<noteq> - 5"
    "sint (- 1 :: int32) < 0" "(- 5 :: int32) <s 7"
    by (simp_all add: word_sless_alt)
  have "Score (CScore (- 5) 3) = - 5"
    using CScore_breaker_precondition h(1) by blast
  moreover have "op_gt (CScore 7 0) (CScore (- 5) 3)"
    using CScore_breaker_precondition h(1,2,3,5) by blast
  moreover have "Score (CScore 0 (- 1)) = 0 - 1"
    using CScore_breaker_precondition h(4) by blast
  ultimately show ?thesis
    using h by simp
qed

text \<open>
  C10.  The default-constructed accumulator \<open>CScore()\<close> equals \<open>CScore(0, 0)\<close> and is the
  additive identity: its score is 0, and for every accumulator \<open>x\<close>, \<open>CScore() + x\<close>
  compares equal to \<open>x\<close> (each is \<open>>=\<close> the other; they are the same value) and
  \<open>x += CScore()\<close> leaves \<open>x\<close> unchanged.
\<close>

theorem CScore0_identity:
  "CScore0 = CScore 0 0 \<and> Score CScore0 = 0 \<and>
   (\<forall>x. op_ge (op_plus CScore0 x) x \<and> op_ge x (op_plus CScore0 x) \<and>
        op_plus CScore0 x = x \<and> op_plus_assign x CScore0 = x)"
  by (simp add: CScore0_def CScore_def Score_def op_ge_def op_plus_def op_plus_assign_def)

section \<open>CIGAR descriptor: the claims\<close>

text \<open>
  C5, as the code has it.  For every pair of \<^verbatim>\<open>int\<close> values \<open>(qto, sto)\<close> below the
  largest \<^verbatim>\<open>int\<close>, the freshly constructed descriptor is the empty-span sentinel: its
  element list is empty, \<open>QueryRange()\<close> returns \<open>(qto + 1, qto)\<close> and \<open>SubjectRange()\<close>
  returns \<open>(sto + 1, sto)\<close>, the increments being exact, so \<open>query_to < query_from\<close> and
  \<open>subject_to < subject_from\<close>.
\<close>

theorem CCigarBase_sentinel:
  assumes "sint qto < 2147483647" and "sint sto < 2147483647"
  shows "m_elements (CCigarBase qto sto) = [] \<and>
         QueryRange (CCigarBase qto sto) = (qto + 1, qto) \<and>
         SubjectRange (CCigar qto sto) = (sto + 1, sto) \<and>
         sint (qto + 1) = sint qto + 1 \<and> sint (sto + 1) = sint sto + 1 \<and>
         snd (QueryRange (CCigarBase qto sto)) <s fst (QueryRange (CCigarBase qto sto)) \<and>
         snd (SubjectRange (CCigar qto sto)) <s fst (SubjectRange (CCigar qto sto))"
  using assms
  by (simp add: QueryRange_def SubjectRange_def CCigar_def CCigarBase_def word_sless_alt
      sint_add1)

theorem CCigarBase_sentinel_witness:
  "sint (- 1 :: int32) < 2147483647 \<and>
   m_elements (CCigarBase (- 1) (- 1)) = [] \<and>
   QueryRange (CCigarBase (- 1) (- 1)) = (0, - 1) \<and>
   SubjectRange (CCigar (- 1) (- 1)) = (0, - 1)"
proof -
  have h: "sint (- 1 :: int32) < 2147483647" by simp
  show ?thesis
    using h CCigarBase_sentinel [OF h h] by simp
qed

text \<open>
  C5, as stated, fails for \<open>qto\<close> the largest \<^verbatim>\<open>int\<close>: no \<^verbatim>\<open>int\<close> is greater, so
  whatever \<open>qto + 1\<close> yields, \<open>query_to < query_from\<close> cannot hold; with the wrap-around
  \<open>QueryRange()\<close> returns \<open>(-2^31, 2^31 - 1)\<close>.
\<close>

theorem CCigarBase_sentinel_counterexample:
  "QueryRange (CCigarBase 2147483647 0) = (- 2147483648, 2147483647) \<and>
   \<not> snd (QueryRange (CCigarBase 2147483647 0)) <s fst (QueryRange (CCigarBase 2147483647 0))"
  by (simp add: QueryRange_def CCigarBase_def word_sless_alt)

section \<open>Edit distance: the loops compute the table of prefix distances\<close>

lemma lev_rev_Nil2 [simp]: "lev_rev xs [] = length xs"
  by (cases xs) simp_all

lemma lev_rev_bound: "lev_rev xs ys \<le> max (length xs) (length ys)"
proof (induction xs ys rule: lev_rev.induct)
  case (3 x xs y ys)
  have "lev_rev (x # xs) (y # ys) \<le> lev_rev xs ys + (if x = y then 0 else 1)"
    by simp
  also have "\<dots> \<le> max (length xs) (length ys) + 1"
    using 3 by simp
  finally show ?case by simp
qed simp_all

lemma lev_rev_same: "lev_rev xs xs = 0"
  by (induction xs) simp_all

lemma lev_prefix_0: "j \<le> length s2 \<Longrightarrow> lev_prefix s1 s2 0 j = j"
  by (simp add: lev_prefix_def)

lemma lev_prefix_col0: "i \<le> length s1 \<Longrightarrow> lev_prefix s1 s2 i 0 = i"
  by (simp add: lev_prefix_def)

lemma lev_prefix_Suc: "i < length s1 \<Longrightarrow> j < length s2 \<Longrightarrow>
  lev_prefix s1 s2 (Suc i) (Suc j) =
    min (min (lev_prefix s1 s2 (Suc i) j + 1) (lev_prefix s1 s2 i (Suc j) + 1))
        (lev_prefix s1 s2 i j + (if s1 ! i = s2 ! j then 0 else 1))"
  by (simp add: lev_prefix_def take_Suc_conv_app_nth)

lemma lev_prefix_bound: "lev_prefix s1 s2 i j \<le> max i j"
  unfolding lev_prefix_def using lev_rev_bound [of "rev (take i s1)" "rev (take j s2)"]
  by simp

lemma lev_prefix_full: "lev_prefix s1 s2 (length s1) (length s2) = Levenshtein s1 s2"
  by (simp add: lev_prefix_def Levenshtein_def)

lemma smin_of_nat:
  "a < 2147483648 \<Longrightarrow> b < 2147483648 \<Longrightarrow>
   smin (word_of_nat a) (word_of_nat b) = word_of_nat (min a b)"
  by (simp add: smin_def word_sless_alt sint_of_nat32 min_def)

text \<open>One assignment of the inner loop, on entries that hold prefix distances: no
  addition wraps while both lengths are below \<open>2^31 - 1\<close>.\<close>

lemma cell_step:
  assumes i: "i < length s1" and j: "j < length s2"
    and b1: "length s1 < 2147483647" and b2: "length s2 < 2147483647"
  shows "smin (smin (1 + word_of_nat (lev_prefix s1 s2 (Suc i) j))
                    (1 + word_of_nat (lev_prefix s1 s2 i (1 + j))))
              (word_of_nat (lev_prefix s1 s2 i j) + (if s1 ! i = s2 ! j then 0 else 1))
         = word_of_nat (lev_prefix s1 s2 (Suc i) (Suc j))"
proof -
  let ?d = "if s1 ! i = s2 ! j then 0 else 1 :: nat"
  have "lev_prefix s1 s2 (Suc i) j \<le> max (Suc i) j"
    "lev_prefix s1 s2 i (Suc j) \<le> max i (Suc j)"
    "lev_prefix s1 s2 i j \<le> max i j"
    by (rule lev_prefix_bound)+
  then have bnd: "lev_prefix s1 s2 (Suc i) j + 1 < 2147483648"
    "lev_prefix s1 s2 i (Suc j) + 1 < 2147483648"
    "lev_prefix s1 s2 i j + ?d < 2147483648"
    using i j b1 b2 by auto
  have e1: "(1 :: int32) + word_of_nat (lev_prefix s1 s2 (Suc i) j)
      = word_of_nat (lev_prefix s1 s2 (Suc i) j + 1)"
    by simp
  have e2: "(1 :: int32) + word_of_nat (lev_prefix s1 s2 i (1 + j))
      = word_of_nat (lev_prefix s1 s2 i (Suc j) + 1)"
    by simp
  have e3: "(word_of_nat (lev_prefix s1 s2 i j) :: int32) + (if s1 ! i = s2 ! j then 0 else 1)
      = word_of_nat (lev_prefix s1 s2 i j + ?d)"
    by simp
  show ?thesis
    unfolding e1 e2 e3
    using bnd by (simp only: smin_of_nat min_less_iff_conj lev_prefix_Suc [OF i j])
qed

text \<open>The inner loop completes row \<open>i + 1\<close> from row \<open>i\<close>.\<close>

lemma inner_loop_row:
  assumes i: "i < length s1"
    and b1: "length s1 < 2147483647" and b2: "length s2 < 2147483647"
  shows "j \<le> length s2 \<Longrightarrow> length col = Suc (length s2) \<Longrightarrow>
     (\<forall>k \<le> j. col ! k = word_of_nat (lev_prefix s1 s2 (Suc i) k)) \<Longrightarrow>
     inner_loop (s1 ! i) s2 (length s2) (lev_row s1 s2 i) j col = lev_row s1 s2 (Suc i)"
proof (induction "length s2 - j" arbitrary: j col)
  case 0
  then have j: "j = length s2" by simp
  have "col = lev_row s1 s2 (Suc i)"
    using 0 j by (auto simp: lev_row_def list_eq_iff_nth_eq nth_Cons' simp del: upt_Suc)
  then show ?case using j by simp
next
  case (Suc n)
  then have j: "j < length s2" by simp
  let ?v = "smin (smin (1 + col ! j) (1 + lev_row s1 s2 i ! (1 + j)))
                 (lev_row s1 s2 i ! j + (if s1 ! i = s2 ! j then 0 else 1))"
  have cj: "col ! j = word_of_nat (lev_prefix s1 s2 (Suc i) j)"
    using Suc.prems by simp
  have r1: "lev_row s1 s2 i ! (1 + j) = word_of_nat (lev_prefix s1 s2 i (1 + j))"
    and r0: "lev_row s1 s2 i ! j = word_of_nat (lev_prefix s1 s2 i j)"
    using j by (simp_all add: lev_row_def nth_append del: upt_Suc)
  have v: "?v = word_of_nat (lev_prefix s1 s2 (Suc i) (Suc j))"
    unfolding cj r1 r0 by (rule cell_step [OF i j b1 b2])
  have "inner_loop (s1 ! i) s2 (length s2) (lev_row s1 s2 i) (j + 1) (col[j + 1 := ?v])
        = lev_row s1 s2 (Suc i)"
  proof (rule Suc.hyps(1))
    show "n = length s2 - (j + 1)" using Suc.hyps(2) by simp
    show "j + 1 \<le> length s2" using j by simp
    show "length (col[j + 1 := ?v]) = Suc (length s2)" using Suc.prems by simp
    show "\<forall>k\<le>j + 1. col[j + 1 := ?v] ! k = word_of_nat (lev_prefix s1 s2 (Suc i) k)"
      using Suc.prems j v by (auto simp: nth_list_update le_Suc_eq)
  qed
  then show ?case
    using j by (subst inner_loop.simps) simp
qed

text \<open>The outer loop ends with the last row in \<open>prevCol\<close>.\<close>

lemma outer_loop_row:
  assumes b1: "length s1 < 2147483647" and b2: "length s2 < 2147483647"
  shows "i \<le> length s1 \<Longrightarrow> length col = Suc (length s2) \<Longrightarrow>
     snd (outer_loop s1 s2 (length s1) (length s2) i (col, lev_row s1 s2 i))
       = lev_row s1 s2 (length s1)"
proof (induction "length s1 - i" arbitrary: i col)
  case 0
  then show ?case by simp
next
  case (Suc n)
  then have i: "i < length s1" by simp
  let ?col0 = "col[0 := word_of_nat i + 1]"
  have "inner_loop (s1 ! i) s2 (length s2) (lev_row s1 s2 i) 0 ?col0 = lev_row s1 s2 (Suc i)"
    using Suc.prems i by (intro inner_loop_row [OF i b1 b2]) (simp_all add: lev_prefix_col0)
  moreover have "snd (outer_loop s1 s2 (length s1) (length s2) (i + 1)
        (lev_row s1 s2 i, lev_row s1 s2 (Suc i))) = lev_row s1 s2 (length s1)"
    using Suc.hyps(1) [of "Suc i" "lev_row s1 s2 i"] Suc.hyps(2) i by (simp add: lev_row_def)
  ultimately show ?case
    using i by (subst outer_loop.simps) simp
qed

lemma lev_row_0: "lev_row s1 s2 0 = map word_of_nat [0..<Suc (length s2)]"
  unfolding lev_row_def by (rule map_cong) (simp_all add: lev_prefix_0 del: upt_Suc)

lemma EditDistance_eq:
  assumes b1: "length s1 < 2147483647" and b2: "length s2 < 2147483647"
  shows "EditDistance s1 s2 = Inr (word_of_nat (Levenshtein s1 s2))"
proof -
  have l1: "sint (size_to_int (length s1)) = int (length s1)"
    and l2: "sint (size_to_int (length s2)) = int (length s2)"
    using b1 b2 by (simp_all add: size_to_int_def sint_of_nat32)
  have l2': "sint (size_to_int (length s2) + 1) = int (length s2) + 1"
    using b2 l2 by (simp add: sint_add1)
  have "snd (outer_loop s1 s2 (length s1) (length s2) 0
          (replicate (Suc (length s2)) 0, lev_row s1 s2 0)) = lev_row s1 s2 (length s1)"
    by (rule outer_loop_row [OF b1 b2]) simp_all
  moreover have "lev_row s1 s2 (length s1) ! length s2 = word_of_nat (Levenshtein s1 s2)"
    by (simp add: lev_row_def nth_append lev_prefix_full del: upt_Suc)
  ultimately show ?thesis
    unfolding EditDistance_def Let_def l1 l2 l2'
    by (simp add: lev_row_0 nat_add_distrib split_beta del: upt_Suc)
qed

lemma Levenshtein_bound: "Levenshtein s1 s2 \<le> max (length s1) (length s2)"
  unfolding Levenshtein_def using lev_rev_bound [of "rev s1" "rev s2"] by simp

section \<open>Edit distance: the claim\<close>

text \<open>
  C9, as the code has it.  For all sequences \<open>s1\<close> and \<open>s2\<close> of fewer than \<open>2^31 - 1\<close>
  elements each, \<open>EditDistance(s1, s2)\<close> returns the Levenshtein distance given by the
  unit-cost reference recursion (distance(empty, s) = |s|, distance(s, empty) = |s|,
  otherwise the minimum of insertion + 1, deletion + 1 and the recursive distance plus 0
  if the last symbols are equal, else 1); in particular \<open>EditDistance(s, s) = 0\<close> for
  every such \<open>s\<close>.
\<close>

theorem EditDistance_Levenshtein:
  assumes "length s1 < 2147483647" and "length s2 < 2147483647"
  shows "\<exists>d. EditDistance s1 s2 = Inr d \<and> sint d = int (Levenshtein s1 s2) \<and>
             EditDistance s1 s1 = Inr 0"
proof -
  have "Levenshtein s1 s2 < 2147483648"
    using Levenshtein_bound [of s1 s2] assms by simp
  then have "sint (word_of_nat (Levenshtein s1 s2) :: int32) = int (Levenshtein s1 s2)"
    by (rule sint_of_nat32)
  moreover have "EditDistance s1 s1 = Inr 0"
    using EditDistance_eq [OF assms(1) assms(1)] by (simp add: Levenshtein_def lev_rev_same)
  ultimately show ?thesis
    using EditDistance_eq [OF assms] by simp
qed

theorem EditDistance_Levenshtein_witness:
  "length ''kitten'' < 2147483647 \<and> length ''sitting'' < 2147483647 \<and>
   Levenshtein ''kitten'' ''sitting'' = 3 \<and>
   (\<exists>d. EditDistance ''kitten'' ''sitting'' = Inr d \<and> sint d = 3)"
proof -
  have h: "length ''kitten'' < 2147483647" "length ''sitting'' < 2147483647"
    by simp_all
  have l: "Levenshtein ''kitten'' ''sitting'' = 3"
    by (simp add: Levenshtein_def)
  show ?thesis
    using h l EditDistance_Levenshtein [OF h] by auto
qed

text \<open>
  C9, as stated, fails for a sequence of \<open>2^31\<close> elements: \<^verbatim>\<open>const int len1 = s1.size()\<close>
  is then negative, the outer loop does not run, and against the empty sequence the
  function returns 0, while the Levenshtein distance is \<open>2^31\<close>.
\<close>

theorem EditDistance_counterexample:
  "EditDistance (replicate 2147483648 CHR ''A'') [] = Inr 0 \<and>
   Levenshtein (replicate 2147483648 CHR ''A'') [] = 2147483648"
proof -
  have l: "sint (size_to_int 2147483648) = - 2147483648"
    by (simp add: size_to_int_def)
  show ?thesis
    by (simp add: EditDistance_def Levenshtein_def l size_to_int_def)
qed

section \<open>Global alignment: the traceback reaches the origin\<close>

lemma acc_max_None [simp]: "acc_max x y = None \<longleftrightarrow> x = None \<and> y = None"
  by (auto simp: acc_max_def acc_ge_def split: option.splits)

lemma acc_add_None [simp]: "acc_add x c = None \<longleftrightarrow> x = None"
  by (simp add: acc_add_def)

lemma acc_ge_None [simp]: "acc_ge x None"
  by (simp add: acc_ge_def)

lemma acc_ge_None_left [simp]: "acc_ge None y \<longleftrightarrow> y = None"
  by (simp add: acc_ge_def split: option.splits)

text \<open>The state that wins a cell holds a score whenever some state of the cell does.\<close>

lemma winner_finite:
  assumes "cell q s go ge dl i j Match \<noteq> None \<or> cell q s go ge dl i j GapQ \<noteq> None
           \<or> cell q s go ge dl i j GapS \<noteq> None"
  shows "cell q s go ge dl i j (winner q s go ge dl i j) \<noteq> None"
  using assms unfolding winner_def Let_def
  by (cases "cell q s go ge dl i j Match"; cases "cell q s go ge dl i j GapQ";
      cases "cell q s go ge dl i j GapS") auto

lemma gap_origin_finite:
  assumes "cell q s go ge dl i j Match \<noteq> None \<or> cell q s go ge dl i j g \<noteq> None"
  shows "cell q s go ge dl i j (gap_origin q s go ge dl i j g) \<noteq> None"
  using assms unfolding gap_origin_def
  by (cases "cell q s go ge dl i j Match"; cases "cell q s go ge dl i j g")
     (auto simp: acc_add_def)

text \<open>Row 0 and column 0 hold the forced gaps; every cell holds a score in some state.\<close>

lemma cell_row0: "cell q s go ge dl 0 (Suc j) GapQ \<noteq> None"
  by (induction j) simp_all

lemma cell_col0: "cell q s go ge dl (Suc i) 0 GapS \<noteq> None"
  by (induction i) simp_all

lemma cell_some_finite:
  "cell q s go ge dl i j Match \<noteq> None \<or> cell q s go ge dl i j GapQ \<noteq> None
   \<or> cell q s go ge dl i j GapS \<noteq> None"
proof (induction i arbitrary: j)
  case 0
  show ?case
  proof (cases j)
    case 0
    then show ?thesis by simp
  next
    case (Suc j')
    then show ?thesis using cell_row0 [of q s go ge dl j'] by blast
  qed
next
  case (Suc i)
  show ?case
  proof (cases j)
    case 0
    then show ?thesis using cell_col0 [of q s go ge dl i] by blast
  next
    case (Suc j')
    then show ?thesis using Suc.IH [of j'] by simp
  qed
qed

lemma cell_Match_row0: "cell q s go ge dl 0 j Match = Some y \<Longrightarrow> j = 0"
  by (cases j) simp_all

lemma cell_Match_col0: "cell q s go ge dl i 0 Match = Some y \<Longrightarrow> i = 0"
  by (cases i) simp_all

text \<open>Pushing a run of length 1: the merged length does not wrap while the sum of the
  runs of its kind stays below the largest \<^verbatim>\<open>int\<close>.\<close>

lemma head_le_run_sum:
  assumes "runs_positive c" "m_elements c = e # es" "m_type e \<in> K"
  shows "sint (m_len e) \<le> run_sum K c"
proof -
  have "0 \<le> sum_list (map (\<lambda>e. sint (m_len e)) (filter (\<lambda>e. m_type e \<in> K) es))"
    using assms(1,2) by (intro sum_list_nonneg) (auto simp: runs_positive_def list_all_iff)
  then show ?thesis
    using assms(2,3) by (simp add: run_sum_def)
qed

lemma PushFront_one:
  assumes pos: "runs_positive c" and k: "k \<in> K" and bnd: "run_sum K c < 2147483647"
  shows "runs_positive (PushFront \<lparr>m_len = 1, m_type = k\<rparr> c)"
    and "run_sum K' (PushFront \<lparr>m_len = 1, m_type = k\<rparr> c)
           = run_sum K' c + (if k \<in> K' then 1 else 0)"
proof -
  have merge: "sint (1 + m_len e) = 1 + sint (m_len e)"
    if "m_elements c = e # es" "m_type e = k" for e es
  proof -
    have "sint (m_len e) \<le> run_sum K c"
      using head_le_run_sum [OF pos that(1)] that(2) k by simp
    then have "sint (m_len e) < 2147483647" using bnd by simp
    then show ?thesis using sint_add1 [of "m_len e"] by (simp add: add.commute)
  qed
  show "runs_positive (PushFront \<lparr>m_len = 1, m_type = k\<rparr> c)"
    using pos merge
    by (cases "m_elements c") (auto simp: runs_positive_def PushFront_def)
  show "run_sum K' (PushFront \<lparr>m_len = 1, m_type = k\<rparr> c)
           = run_sum K' c + (if k \<in> K' then 1 else 0)"
    using merge
    by (cases "m_elements c") (auto simp: run_sum_def PushFront_def)
qed

text \<open>From a state that holds a score, the traceback from cell \<open>(i, j)\<close> adds \<open>i\<close> to the
  runs that consume query and \<open>j\<close> to the runs that consume subject.\<close>

lemma traceback_sums:
  "cell q s go ge dl i j st \<noteq> None \<Longrightarrow> runs_positive c \<Longrightarrow>
   run_sum {CHR ''M'', CHR ''I''} c + int i < 2147483648 \<Longrightarrow>
   run_sum {CHR ''M'', CHR ''D''} c + int j < 2147483648 \<Longrightarrow>
   runs_positive (traceback q s go ge dl i j st c) \<and>
   run_sum {CHR ''M'', CHR ''I''} (traceback q s go ge dl i j st c)
     = run_sum {CHR ''M'', CHR ''I''} c + int i \<and>
   run_sum {CHR ''M'', CHR ''D''} (traceback q s go ge dl i j st c)
     = run_sum {CHR ''M'', CHR ''D''} c + int j"
proof (induction q s go ge dl i j st c rule: traceback.induct)
  case (1 q s go ge dl i j c)
  let ?c = "PushFront \<lparr>m_len = 1, m_type = CHR ''M''\<rparr> c"
  have fin: "cell q s go ge dl i j (winner q s go ge dl i j) \<noteq> None"
    by (rule winner_finite) (rule cell_some_finite)
  have b: "run_sum {CHR ''M'', CHR ''I''} c < 2147483647" using "1.prems" by simp
  have p: "runs_positive ?c"
    and sq: "run_sum {CHR ''M'', CHR ''I''} ?c = run_sum {CHR ''M'', CHR ''I''} c + 1"
    and ss: "run_sum {CHR ''M'', CHR ''D''} ?c = run_sum {CHR ''M'', CHR ''D''} c + 1"
    using PushFront_one [OF "1.prems"(2) _ b, of "CHR ''M''"] by simp_all
  show ?case
    using "1.IH" [OF fin p] "1.prems"(3,4) by (simp add: sq ss)
next
  case (2 q s go ge dl i j c)
  let ?c = "PushFront \<lparr>m_len = 1, m_type = CHR ''D''\<rparr> c"
  have fin: "cell q s go ge dl i j (gap_origin q s go ge dl i j GapQ) \<noteq> None"
    using "2.prems"(1) by (intro gap_origin_finite) simp
  have b: "run_sum {CHR ''M'', CHR ''D''} c < 2147483647" using "2.prems" by simp
  have p: "runs_positive ?c"
    and sq: "run_sum {CHR ''M'', CHR ''I''} ?c = run_sum {CHR ''M'', CHR ''I''} c"
    and ss: "run_sum {CHR ''M'', CHR ''D''} ?c = run_sum {CHR ''M'', CHR ''D''} c + 1"
    using PushFront_one [OF "2.prems"(2) _ b, of "CHR ''D''"] by simp_all
  show ?case
    using "2.IH" [OF fin p] "2.prems"(3,4) by (simp add: sq ss)
next
  case (3 q s go ge dl i j c)
  let ?c = "PushFront \<lparr>m_len = 1, m_type = CHR ''I''\<rparr> c"
  have fin: "cell q s go ge dl i j (gap_origin q s go ge dl i j GapS) \<noteq> None"
    using "3.prems"(1) by (intro gap_origin_finite) simp
  have b: "run_sum {CHR ''M'', CHR ''I''} c < 2147483647" using "3.prems" by simp
  have p: "runs_positive ?c"
    and sq: "run_sum {CHR ''M'', CHR ''I''} ?c = run_sum {CHR ''M'', CHR ''I''} c + 1"
    and ss: "run_sum {CHR ''M'', CHR ''D''} ?c = run_sum {CHR ''M'', CHR ''D''} c"
    using PushFront_one [OF "3.prems"(2) _ b, of "CHR ''I''"] by simp_all
  show ?case
    using "3.IH" [OF fin p] "3.prems"(3,4) by (simp add: sq ss)
qed (auto dest: cell_Match_row0 cell_Match_col0)

text \<open>The traceback leaves the end coordinates alone and moves the start coordinates
  down by the numbers of query and subject positions it consumes.\<close>

lemma PushFront_coords:
  "m_qto (PushFront el c) = m_qto c" "m_sto (PushFront el c) = m_sto c"
  "m_qfrom (PushFront el c)
     = (if m_type el \<in> {CHR ''M'', CHR ''I''} then m_qfrom c - m_len el else m_qfrom c)"
  "m_sfrom (PushFront el c)
     = (if m_type el \<in> {CHR ''M'', CHR ''D''} then m_sfrom c - m_len el else m_sfrom c)"
  by (simp_all add: PushFront_def)

lemma traceback_coords:
  "cell q s go ge dl i j st \<noteq> None \<Longrightarrow>
   m_qto (traceback q s go ge dl i j st c) = m_qto c \<and>
   m_sto (traceback q s go ge dl i j st c) = m_sto c \<and>
   m_qfrom (traceback q s go ge dl i j st c) = m_qfrom c - word_of_nat i \<and>
   m_sfrom (traceback q s go ge dl i j st c) = m_sfrom c - word_of_nat j"
proof (induction q s go ge dl i j st c rule: traceback.induct)
  case (1 q s go ge dl i j c)
  have "cell q s go ge dl i j (winner q s go ge dl i j) \<noteq> None"
    by (rule winner_finite) (rule cell_some_finite)
  from "1.IH" [OF this] show ?case
    by (simp add: PushFront_coords)
next
  case (2 q s go ge dl i j c)
  have "cell q s go ge dl i j (gap_origin q s go ge dl i j GapQ) \<noteq> None"
    using "2.prems"(1) by (intro gap_origin_finite) simp
  from "2.IH" [OF this] show ?case
    by (simp add: PushFront_coords)
next
  case (3 q s go ge dl i j c)
  have "cell q s go ge dl i j (gap_origin q s go ge dl i j GapS) \<noteq> None"
    using "3.prems"(1) by (intro gap_origin_finite) simp
  from "3.IH" [OF this] show ?case
    by (simp add: PushFront_coords)
qed (auto dest: cell_Match_row0 cell_Match_col0)

lemma of_nat_nat_sint: "0 \<le> sint (w :: int32) \<Longrightarrow> word_of_nat (nat (sint w)) = w"
proof -
  assume "0 \<le> sint w"
  then have "(word_of_nat (nat (sint w)) :: int32) = word_of_int (sint w)"
    by (simp add: of_nat_nat)
  then show ?thesis by simp
qed

section \<open>Alignment engine: the claims\<close>

text \<open>
  C2.  For every non-empty query (\<open>querylen > 0\<close>) and non-empty subject
  (\<open>subjectlen > 0\<close>), \<open>GlbAlign\<close> returns a descriptor, and in it the run lengths of the
  'M' and 'I' operations sum to \<open>querylen\<close> and the run lengths of the 'M' and 'D'
  operations sum to \<open>subjectlen\<close>.  The descriptor spans both sequences, from 0 to
  \<open>querylen - 1\<close> and from 0 to \<open>subjectlen - 1\<close>, so the two sums are
  \<open>query_to - query_from + 1\<close> and \<open>subject_to - subject_from + 1\<close>.
\<close>

theorem GlbAlign_run_lengths:
  assumes "0 <s querylen" and "0 <s subjectlen"
  shows "\<exists>c. GlbAlign query querylen subject subjectlen gopen gapextend delta = Inr c \<and>
             run_sum {CHR ''M'', CHR ''I''} c = sint querylen \<and>
             run_sum {CHR ''M'', CHR ''D''} c = sint subjectlen \<and>
             QueryRange c = (0, querylen - 1) \<and> SubjectRange c = (0, subjectlen - 1)"
proof -
  let ?n = "nat (sint querylen)" and ?m = "nat (sint subjectlen)"
  let ?c0 = "CCigar (querylen - 1) (subjectlen - 1)"
  have pos: "0 < sint querylen" "0 < sint subjectlen"
    using assms by (simp_all add: word_sless_alt)
  have c0: "runs_positive ?c0" "run_sum {CHR ''M'', CHR ''I''} ?c0 = 0"
    "run_sum {CHR ''M'', CHR ''D''} ?c0 = 0"
    by (simp_all add: runs_positive_def run_sum_def CCigar_def CCigarBase_def)
  have fin: "cell query subject gopen gapextend delta ?n ?m
               (winner query subject gopen gapextend delta ?n ?m) \<noteq> None"
    by (rule winner_finite) (rule cell_some_finite)
  have "run_sum {CHR ''M'', CHR ''I''} ?c0 + int ?n < 2147483648"
    "run_sum {CHR ''M'', CHR ''D''} ?c0 + int ?m < 2147483648"
    using pos sint32_range [of querylen] sint32_range [of subjectlen] by (simp_all add: c0)
  moreover have q0: "m_qfrom ?c0 = querylen" "m_qto ?c0 = querylen - 1"
    "m_sfrom ?c0 = subjectlen" "m_sto ?c0 = subjectlen - 1"
    by (simp_all add: CCigar_def CCigarBase_def)
  ultimately show ?thesis
    using pos traceback_sums [OF fin c0(1)] traceback_coords [OF fin, of ?c0]
    unfolding GlbAlign_def Let_def
    by (simp add: c0 word_sle_eq QueryRange_def SubjectRange_def of_nat_nat_sint)
qed

text \<open>The witness is the example of the specification: \<open>ACGT\<close> against itself with
  match 1, mismatch -1, gap open 5 and gap extend 1 gives the descriptor \<open>4M\<close>.\<close>

theorem GlbAlign_run_lengths_witness:
  "0 <s (4 :: int32) \<and>
   GlbAlign ((!) ''ACGT'') 4 ((!) ''ACGT'') 4 5 1 (\<lambda>a b. if a = b then 1 else - 1)
     = Inr \<lparr>m_elements = [\<lparr>m_len = 4, m_type = CHR ''M''\<rparr>],
            m_qfrom = 0, m_qto = 3, m_sfrom = 0, m_sto = 3\<rparr> \<and>
   (\<exists>c. GlbAlign ((!) ''ACGT'') 4 ((!) ''ACGT'') 4 5 1 (\<lambda>a b. if a = b then 1 else - 1)
           = Inr c \<and>
        run_sum {CHR ''M'', CHR ''I''} c = 4 \<and> run_sum {CHR ''M'', CHR ''D''} c = 4 \<and>
        QueryRange c = (0, 3) \<and> SubjectRange c = (0, 3))"
proof -
  have h: "0 <s (4 :: int32)"
    by (simp add: word_sless_alt)
  have e: "GlbAlign ((!) ''ACGT'') 4 ((!) ''ACGT'') 4 5 1 (\<lambda>a b. if a = b then 1 else - 1)
     = Inr \<lparr>m_elements = [\<lparr>m_len = 4, m_type = CHR ''M''\<rparr>],
            m_qfrom = 0, m_qto = 3, m_sfrom = 0, m_sto = 3\<rparr>"
    by code_simp
  have "\<exists>c. GlbAlign ((!) ''ACGT'') 4 ((!) ''ACGT'') 4 5 1 (\<lambda>a b. if a = b then 1 else - 1)
           = Inr c \<and>
        run_sum {CHR ''M'', CHR ''I''} c = 4 \<and> run_sum {CHR ''M'', CHR ''D''} c = 4 \<and>
        QueryRange c = (0, 3) \<and> SubjectRange c = (0, 3)"
    using GlbAlign_run_lengths [OF h h, of "(!) ''ACGT''" "(!) ''ACGT''" 5 1
        "\<lambda>a b. if a = b then 1 else - 1"]
    by simp
  then show ?thesis
    using h e by blast
qed

text \<open>
  C4.  Every alignment entry point (\<open>GlbAlign\<close>, both \<open>LclAlign\<close>, \<open>VariBandAlign\<close>,
  \<open>BandAlign\<close>) fails with \<open>InvalidInput\<close> whenever \<open>querylen <= 0\<close> or
  \<open>subjectlen <= 0\<close>: the result is the failure, not a descriptor, whatever the dynamic
  programming behind the check would produce.
\<close>

theorem entry_points_InvalidInput:
  assumes "querylen \<le>s 0 \<or> subjectlen \<le>s 0"
  shows "GlbAlign query querylen subject subjectlen gopen gapextend delta = Inl InvalidInput \<and>
         LclAlign dp1 query querylen subject subjectlen gopen gapextend delta
           = Inl InvalidInput \<and>
         LclAlign_pin dp2 query querylen subject subjectlen gopen gapextend pinleft pinright delta
           = Inl InvalidInput \<and>
         VariBandAlign dp3 query querylen subject subjectlen gopen gapextend delta subject_limits
           = Inl InvalidInput \<and>
         BandAlign dp4 query querylen subject subjectlen gopen gapextend delta band
           = Inl InvalidInput"
  using assms
  by (simp add: GlbAlign_def LclAlign_def LclAlign_pin_def VariBandAlign_def BandAlign_def)

theorem entry_points_InvalidInput_witness:
  "((0 :: int32) \<le>s 0 \<or> (4 :: int32) \<le>s 0) \<and>
   GlbAlign ((!) []) 0 ((!) ''ACGT'') 4 5 1 (\<lambda>a b. if a = b then 1 else - 1)
     = Inl InvalidInput \<and>
   LclAlign (\<lambda>q ql s sl go ge d. Inr (CCigar (ql - 1) (sl - 1)))
       ((!) []) 0 ((!) ''ACGT'') 4 5 1 (\<lambda>a b. if a = b then 1 else - 1)
     = Inl InvalidInput \<and>
   LclAlign_pin (\<lambda>q ql s sl go ge pl pr d. Inr (CCigar (ql - 1) (sl - 1)))
       ((!) []) 0 ((!) ''ACGT'') 4 5 1 True False (\<lambda>a b. if a = b then 1 else - 1)
     = Inl InvalidInput \<and>
   VariBandAlign (\<lambda>q ql s sl go ge d lim. Inr (CCigar (ql - 1) (sl - 1)))
       ((!) []) 0 ((!) ''ACGT'') 4 5 1 (\<lambda>a b. if a = b then 1 else - 1) (\<lambda>i. (0, 3))
     = Inl InvalidInput \<and>
   BandAlign (\<lambda>q ql s sl go ge d b. Inr (CCigar (ql - 1) (sl - 1)))
       ((!) []) 0 ((!) ''ACGT'') 4 5 1 (\<lambda>a b. if a = b then 1 else - 1) 2
     = Inl InvalidInput"
proof -
  have h: "(0 :: int32) \<le>s 0 \<or> (4 :: int32) \<le>s 0"
    by simp
  show ?thesis
    using h entry_points_InvalidInput [OF h] by simp
qed


end
